theory Spec2Isabelle
  imports Main
begin

section \<open>The path functions used by ollama-models.py\<close>

text \<open>
  The program manipulates paths through Python's \<^verbatim>\<open>os.path\<close> on a POSIX system
  (\<^verbatim>\<open>posixpath\<close>). Each function below follows the library's body line by line.
  A Python \<^verbatim>\<open>str\<close> is a \<open>string\<close>; the only characters the code inspects are
  \<^verbatim>\<open>/\<close>, \<^verbatim>\<open>:\<close>, \<^verbatim>\<open>-\<close>, \<^verbatim>\<open>.\<close>, the newline and the ASCII letters and digits.
\<close>

definition sep :: char where
  "sep = CHR ''/''"

text \<open>\<^verbatim>\<open>b.startswith('/')\<close> and \<^verbatim>\<open>path.endswith('/')\<close>.\<close>

definition startswith_sep :: "string \<Rightarrow> bool" where
  "startswith_sep b = (case b of [] \<Rightarrow> False | c # _ \<Rightarrow> c = sep)"

definition endswith_sep :: "string \<Rightarrow> bool" where
  "endswith_sep p = (p \<noteq> [] \<and> last p = sep)"

text \<open>
  One round of the loop of \<^verbatim>\<open>posixpath.join\<close>: an absolute component discards what
  came before, an empty path or one ending in a separator is extended directly, and
  otherwise a separator is inserted.
\<close>

definition join_step :: "string \<Rightarrow> string \<Rightarrow> string" where
  "join_step path b =
     (if startswith_sep b then b
      else if path = [] \<or> endswith_sep path then path @ b
      else path @ sep # b)"

definition join :: "string \<Rightarrow> string list \<Rightarrow> string" where
  "join a p = foldl join_step a p"

text \<open>\<^verbatim>\<open>str.split('/')\<close>: the pieces between separators, empty pieces included.\<close>

fun split_sep :: "string \<Rightarrow> string list" where
  "split_sep [] = [[]]"
| "split_sep (c # cs) =
     (if c = sep then [] # split_sep cs
      else (case split_sep cs of [] \<Rightarrow> [[c]] | x # xs \<Rightarrow> (c # x) # xs))"

text \<open>\<^verbatim>\<open>'/'.join(comps)\<close>.\<close>

fun sep_join :: "string list \<Rightarrow> string" where
  "sep_join [] = []"
| "sep_join [x] = x"
| "sep_join (x # y # ys) = x @ sep # sep_join (y # ys)"

text \<open>
  \<^verbatim>\<open>posixpath.dirname\<close>: \<open>head\<close> is the path up to and including its last separator
  (\<^verbatim>\<open>p[:p.rfind('/') + 1]\<close>, empty when there is none); unless it consists of
  separators only, its trailing separators are stripped.
\<close>

definition rstrip_sep :: "string \<Rightarrow> string" where
  "rstrip_sep s = rev (dropWhile (\<lambda>c. c = sep) (rev s))"

definition dirname :: "string \<Rightarrow> string" where
  "dirname p =
     (let head = rev (dropWhile (\<lambda>c. c \<noteq> sep) (rev p))
      in if head \<noteq> [] \<and> head \<noteq> replicate (length head) sep then rstrip_sep head
         else head)"

text \<open>
  \<^verbatim>\<open>posixpath.normpath\<close>. \<open>initial_slashes\<close> is 0, 1 or 2: POSIX keeps exactly two
  leading slashes and treats three or more as one. The loop over the components keeps
  \<open>new_comps\<close> in order, appending at the end and popping from the end.
\<close>

definition initial_slashes :: "string \<Rightarrow> nat" where
  "initial_slashes path =
     (if \<not> startswith_sep path then 0
      else if startswith_sep (tl path) \<and> \<not> startswith_sep (tl (tl path)) then 2
      else 1)"

definition norm_step :: "nat \<Rightarrow> string list \<Rightarrow> string \<Rightarrow> string list" where
  "norm_step ini new_comps cmp =
     (if cmp = [] \<or> cmp = ''.'' then new_comps
      else if cmp \<noteq> ''..'' \<or> (ini = 0 \<and> new_comps = [])
              \<or> (new_comps \<noteq> [] \<and> last new_comps = ''..'')
           then new_comps @ [cmp]
      else if new_comps \<noteq> [] then butlast new_comps
      else new_comps)"

definition normpath :: "string \<Rightarrow> string" where
  "normpath path =
     (if path = [] then ''.''
      else
        (let ini = initial_slashes path;
             comps = foldl (norm_step ini) [] (split_sep path);
             path' = replicate ini sep @ sep_join comps
         in if path' = [] then ''.'' else path'))"

text \<open>
  \<^verbatim>\<open>posixpath.abspath\<close>; the process's working directory (\<^verbatim>\<open>os.getcwd()\<close>) is the
  first argument.
\<close>

definition abspath :: "string \<Rightarrow> string \<Rightarrow> string" where
  "abspath cwd path =
     normpath (if \<not> startswith_sep path then join cwd [path] else path)"

text \<open>
  \<^verbatim>\<open>os.path.commonprefix\<close> of two lists of components: the library compares the
  smaller of the two lists (in list order) with the larger one, element by element, and
  returns the part before the first difference, which is their longest common prefix.
\<close>

fun commonprefix :: "string list \<Rightarrow> string list \<Rightarrow> string list" where
  "commonprefix (x # xs) (y # ys) = (if x = y then x # commonprefix xs ys else [])"
| "commonprefix _ _ = []"

section \<open>Errors\<close>

text \<open>
  \<^verbatim>\<open>KnownError\<close> is the program's own exception class; it carries its message. Every
  other exception that can leave a modelled function (a failing \<^verbatim>\<open>open\<close>, malformed
  JSON, a missing field, \<^verbatim>\<open>ValueError\<close> of \<^verbatim>\<open>relpath\<close>) is \<open>OtherError\<close>: the program
  never catches those.
\<close>

datatype error = KnownError string | OtherError

text \<open>
  \<^verbatim>\<open>posixpath.relpath\<close>: raises on an empty path; otherwise climbs from \<open>start\<close> to
  the common ancestor and descends to \<open>path\<close>.
\<close>

definition relpath :: "string \<Rightarrow> string \<Rightarrow> string \<Rightarrow> error + string" where
  "relpath cwd path start =
     (if path = [] then Inl OtherError
      else
        (let start_list = filter (\<lambda>x. x \<noteq> []) (split_sep (abspath cwd start));
             path_list = filter (\<lambda>x. x \<noteq> []) (split_sep (abspath cwd path));
             i = length (commonprefix start_list path_list);
             rel_list = replicate (length start_list - i) ''..'' @ drop i path_list
         in case rel_list of
              [] \<Rightarrow> Inr ''.''
            | r # rs \<Rightarrow> Inr (join r rs)))"

section \<open>The data model\<close>

text \<open>
  \<^verbatim>\<open>ManifestLayer\<close>, \<^verbatim>\<open>Manifest\<close> and \<^verbatim>\<open>ManifestData\<close> of the source. The two
  \<^verbatim>\<open>mediaType\<close> fields and the two \<^verbatim>\<open>size\<close> fields get distinct names; Python's
  integers are unbounded, hence \<open>int\<close>.
\<close>

record ManifestLayer =
  layer_mediaType :: string
  digest :: string
  layer_size :: int

record Manifest =
  schemaVersion :: int
  mediaType :: string
  config :: ManifestLayer
  layers :: "ManifestLayer list"

record ManifestData =
  root :: string
  files :: "string list"
  data_size :: int

text \<open>
  What the program observes of its environment: the working directory, which paths name
  an existing regular file (\<^verbatim>\<open>os.path.isfile\<close>), and what opening a path and decoding
  its JSON gives (\<open>None\<close> when \<^verbatim>\<open>open\<close> or \<^verbatim>\<open>json.load\<close> raises, or when the
  decoded value lacks a field or has one of another type, which makes one of the
  lines 61 to 71 raise). The two observations are independent: a FIFO or a device can be
  opened and read without being a regular file.
\<close>

record world =
  cwd :: string
  isfile :: "string \<Rightarrow> bool"
  json_load :: "string \<Rightarrow> Manifest option"

section \<open>Building the file set of one manifest\<close>

definition read_ollama_manifest :: "world \<Rightarrow> string \<Rightarrow> error + Manifest" where
  "read_ollama_manifest w manifest_path =
     (case json_load w manifest_path of None \<Rightarrow> Inl OtherError | Some m \<Rightarrow> Inr m)"

text \<open>\<^verbatim>\<open>digest.replace(':', '-')\<close> and \<^verbatim>\<open>path.join('blobs', ...)\<close> of line 68.\<close>

definition replace_colon :: "string \<Rightarrow> string" where
  "replace_colon d = map (\<lambda>c. if c = CHR '':'' then CHR ''-'' else c) d"

definition blob_path :: "string \<Rightarrow> string" where
  "blob_path d = join ''blobs'' [replace_colon d]"

text \<open>The ascent of line 58.\<close>

definition manifest_root :: "string \<Rightarrow> string" where
  "manifest_root manifest_absolute_path =
     dirname (dirname (dirname (dirname (dirname manifest_absolute_path))))"

text \<open>The loop of lines 73 to 76: the first file that is missing raises.\<close>

fun check_files :: "world \<Rightarrow> string \<Rightarrow> string list \<Rightarrow> error + unit" where
  "check_files w r [] = Inr ()"
| "check_files w r (f # fs) =
     (let abs_path = join r [f]
      in if \<not> isfile w abs_path then Inl (KnownError (''File not found: '' @ abs_path))
         else check_files w r fs)"

definition get_ollama_manifest_data :: "world \<Rightarrow> string \<Rightarrow> error + ManifestData" where
  "get_ollama_manifest_data w manifest =
     (let manifest_absolute_path = abspath (cwd w) manifest;
          r = manifest_root manifest_absolute_path
      in case read_ollama_manifest w manifest_absolute_path of
           Inl e \<Rightarrow> Inl e
         | Inr manifest_data \<Rightarrow>
             (let digests = digest (config manifest_data) # map digest (layers manifest_data)
              in case relpath (cwd w) manifest_absolute_path r of
                   Inl e \<Rightarrow> Inl e
                 | Inr rel \<Rightarrow>
                     (let fs = rel # map blob_path digests;
                          sz = sum_list (map layer_size (layers manifest_data))
                               + layer_size (config manifest_data)
                      in case check_files w r fs of
                           Inl e \<Rightarrow> Inl e
                         | Inr _ \<Rightarrow> Inr \<lparr>root = r, files = fs, data_size = sz\<rparr>)))"

text \<open>The list comprehension of line 82: the first manifest that fails aborts it.\<close>

fun get_ollama_manifests_data :: "world \<Rightarrow> string list \<Rightarrow> error + ManifestData list" where
  "get_ollama_manifests_data w [] = Inr []"
| "get_ollama_manifests_data w (manifest # manifests) =
     (case get_ollama_manifest_data w manifest of
        Inl e \<Rightarrow> Inl e
      | Inr d \<Rightarrow>
          (case get_ollama_manifests_data w manifests of
             Inl e \<Rightarrow> Inl e
           | Inr ds \<Rightarrow> Inr (d # ds)))"

definition check_single_ollama_root :: "ManifestData list \<Rightarrow> error + unit" where
  "check_single_ollama_root manifests_data =
     (if card (set (map root manifests_data)) \<noteq> 1
      then Inl (KnownError ''All manifests must be in the same OLLAMA_MODELS directory.'')
      else Inr ())"

section \<open>The commands\<close>

text \<open>
  A command is modelled by the calls it makes to the output primitives, in order, and the
  exception that ended it, if any. The primitives themselves (\<^verbatim>\<open>print\<close>,
  \<^verbatim>\<open>makedirs\<close>, \<^verbatim>\<open>shutil.copy2\<close>, \<^verbatim>\<open>tarfile\<close>, \<^verbatim>\<open>zipfile\<close>) are the standard
  library's and are taken to succeed.
\<close>

datatype target = Stdout | File string

datatype effect =
    Print string
  | Makedirs string
  | Copy2 string string
  | TarOpen target
  | TarAdd string string
  | ZipOpen target
  | ZipWrite string string
  | ArchiveClose

type_synonym outcome = "effect list \<times> error option"

definition list_command :: "world \<Rightarrow> string list \<Rightarrow> outcome" where
  "list_command w manifests =
     (case get_ollama_manifests_data w manifests of
        Inl e \<Rightarrow> ([], Some e)
      | Inr manifests_data \<Rightarrow>
          (case check_single_ollama_root manifests_data of
             Inl e \<Rightarrow> ([], Some e)
           | Inr _ \<Rightarrow>
               (concat (map (\<lambda>manifest_data. map Print (files manifest_data)) manifests_data),
                None)))"

definition copy_file :: "string \<Rightarrow> string \<Rightarrow> string \<Rightarrow> effect list" where
  "copy_file r destination file =
     (let source_path = join r [file];
          destination_path = join destination [file];
          destination_dir = dirname destination_path
      in [Makedirs destination_dir, Copy2 source_path destination_path])"

definition copy_command :: "world \<Rightarrow> string list \<Rightarrow> string \<Rightarrow> outcome" where
  "copy_command w manifests destination =
     (case get_ollama_manifests_data w manifests of
        Inl e \<Rightarrow> ([], Some e)
      | Inr manifests_data \<Rightarrow>
          (concat (map (\<lambda>manifest_data.
             concat (map (copy_file (root manifest_data) destination) (files manifest_data)))
             manifests_data),
           None))"

definition archive_target :: "string \<Rightarrow> target" where
  "archive_target archive_path = (if archive_path = ''-'' then Stdout else File archive_path)"

definition tar_command :: "world \<Rightarrow> string list \<Rightarrow> string \<Rightarrow> outcome" where
  "tar_command w manifests archive_path =
     (case get_ollama_manifests_data w manifests of
        Inl e \<Rightarrow> ([], Some e)
      | Inr manifests_data \<Rightarrow>
          (TarOpen (archive_target archive_path)
           # concat (map (\<lambda>data. map (\<lambda>file. TarAdd (join (root data) [file]) file) (files data))
               manifests_data)
           @ [ArchiveClose],
           None))"

definition zip_command :: "world \<Rightarrow> string list \<Rightarrow> string \<Rightarrow> outcome" where
  "zip_command w manifests archive_path =
     (case get_ollama_manifests_data w manifests of
        Inl e \<Rightarrow> ([], Some e)
      | Inr manifests_data \<Rightarrow>
          (ZipOpen (archive_target archive_path)
           # concat (map (\<lambda>data. map (\<lambda>file. ZipWrite (join (root data) [file]) file) (files data))
               manifests_data)
           @ [ArchiveClose],
           None))"

section \<open>Resolving references\<close>

text \<open>
  The pattern of line 142,
  \<^verbatim>\<open>^(?P<name>[a-zA-Z0-9][a-zA-Z0-9._-]*):(?P<tag>[a-zA-Z0-9][a-zA-Z0-9._-]*)$\<close>,
  applied with \<^verbatim>\<open>match\<close>. Each group is greedy, and the character that must follow it
  (the colon, the end) is outside its class, so the group always extends to the first
  character outside the class. Without the \<^verbatim>\<open>MULTILINE\<close> flag, Python's \<^verbatim>\<open>$\<close> matches
  at the end of the string and also just before a newline that ends the string.
\<close>

definition alnum :: "char \<Rightarrow> bool" where
  "alnum c = (c \<in> set ''abcdefghijklmnopqrstuvwxyzABCDEFGHIJKLMNOPQRSTUVWXYZ0123456789'')"

definition word_char :: "char \<Rightarrow> bool" where
  "word_char c = (alnum c \<or> c = CHR ''.'' \<or> c = CHR ''_'' \<or> c = CHR ''-'')"

definition match_group :: "string \<Rightarrow> (string \<times> string) option" where
  "match_group s =
     (case s of
        [] \<Rightarrow> None
      | c # cs \<Rightarrow>
          if alnum c then Some (c # takeWhile word_char cs, dropWhile word_char cs) else None)"

definition model_pattern_match :: "string \<Rightarrow> (string \<times> string) option" where
  "model_pattern_match s =
     (case match_group s of
        None \<Rightarrow> None
      | Some (name, s1) \<Rightarrow>
          (case s1 of
             [] \<Rightarrow> None
           | c # s2 \<Rightarrow>
               if c \<noteq> CHR '':'' then None
               else (case match_group s2 of
                       None \<Rightarrow> None
                     | Some (tag, s3) \<Rightarrow>
                         if s3 = [] \<or> s3 = [CHR 0x0A] then Some (name, tag) else None)))"

text \<open>The body of the loop of lines 144 to 160, for one command-line value.\<close>

definition resolve_manifest :: "world \<Rightarrow> string \<Rightarrow> string \<Rightarrow> error + string" where
  "resolve_manifest w models_dir model_or_manifest =
     (case model_pattern_match model_or_manifest of
        Some (name, tag) \<Rightarrow>
          (let manifest = join models_dir
                 [''manifests'', ''registry.ollama.ai'', ''library'', name, tag]
           in if isfile w manifest then Inr manifest
              else Inl (KnownError
                     (model_or_manifest @ '' manifest's not found: '' @ manifest)))
      | None \<Rightarrow>
          if isfile w model_or_manifest then Inr model_or_manifest
          else Inl (KnownError (''File not found: '' @ model_or_manifest)))"

text \<open>\<^verbatim>\<open>list(gen())\<close>: the generator is drained in order and its first raise ends it.\<close>

fun resolve_manifests :: "world \<Rightarrow> string list \<Rightarrow> string \<Rightarrow> error + string list" where
  "resolve_manifests w [] models_dir = Inr []"
| "resolve_manifests w (v # vs) models_dir =
     (case resolve_manifest w models_dir v of
        Inl e \<Rightarrow> Inl e
      | Inr manifest \<Rightarrow>
          (case resolve_manifests w vs models_dir of
             Inl e \<Rightarrow> Inl e
           | Inr ms \<Rightarrow> Inr (manifest # ms)))"

section \<open>The entry point\<close>

text \<open>
  The parsed command line: the sub-command with its own option, \<^verbatim>\<open>--models-dir\<close> and
  the \<^verbatim>\<open>model\<close> values. References are resolved first, then the command runs.
\<close>

datatype command = ListCmd | CopyCmd string | TarCmd string | ZipCmd string

definition main :: "world \<Rightarrow> command \<Rightarrow> string \<Rightarrow> string list \<Rightarrow> outcome" where
  "main w cmd models_dir model =
     (case resolve_manifests w model models_dir of
        Inl e \<Rightarrow> ([], Some e)
      | Inr manifests \<Rightarrow>
          (case cmd of
             ListCmd \<Rightarrow> list_command w manifests
           | CopyCmd to \<Rightarrow> copy_command w manifests to
           | TarCmd archive \<Rightarrow> tar_command w manifests archive
           | ZipCmd archive \<Rightarrow> zip_command w manifests archive))"

section \<open>Normalised absolute paths\<close>

text \<open>
  The vocabulary of the statements about paths: a segment is a non-empty name without a
  separator, other than \<^verbatim>\<open>.\<close> and \<^verbatim>\<open>..\<close>; \<open>rooted k segs\<close> writes the absolute
  path with \<open>k\<close> leading separators and the given segments, so that \<open>rooted 1 []\<close> is the
  top directory \<^verbatim>\<open>/\<close>. POSIX gives paths with exactly two leading separators a meaning
  of their own, and \<^verbatim>\<open>normpath\<close> keeps them, hence \<open>k\<close> is 1 or 2.
\<close>

definition segment :: "string \<Rightarrow> bool" where
  "segment s = (s \<noteq> [] \<and> sep \<notin> set s \<and> s \<noteq> ''.'' \<and> s \<noteq> ''..'')"

definition rooted :: "nat \<Rightarrow> string list \<Rightarrow> string" where
  "rooted k segs = replicate k sep @ sep_join segs"

section \<open>References as the specification words them\<close>

text \<open>
  The specification's reading of a symbolic reference, for comparison with
  \<open>model_pattern_match\<close>: the whole input is \<^verbatim>\<open>name:tag\<close>, where name and tag each
  start with an alphanumeric character followed by characters from \<^verbatim>\<open>[A-Za-z0-9._-]\<close>.
  Neither part can hold a colon, so the name ends at the first one.
\<close>

definition spec_part :: "string \<Rightarrow> bool" where
  "spec_part s = (case s of [] \<Rightarrow> False | c # cs \<Rightarrow> alnum c \<and> list_all word_char cs)"

definition spec_reference :: "string \<Rightarrow> (string \<times> string) option" where
  "spec_reference s =
     (let name = takeWhile (\<lambda>c. c \<noteq> CHR '':'') s;
          rest = dropWhile (\<lambda>c. c \<noteq> CHR '':'') s
      in case rest of
           [] \<Rightarrow> None
         | _ # tag \<Rightarrow> if spec_part name \<and> spec_part tag then Some (name, tag) else None)"

definition spec_resolve :: "world \<Rightarrow> string \<Rightarrow> string \<Rightarrow> error + string" where
  "spec_resolve w store_root ref =
     (case spec_reference ref of
        Some (name, tag) \<Rightarrow>
          (let candidate = join store_root
                 [''manifests'', ''registry.ollama.ai'', ''library'', name, tag]
           in if isfile w candidate then Inr candidate
              else Inl (KnownError (ref @ '' manifest's not found: '' @ candidate)))
      | None \<Rightarrow>
          if isfile w ref then Inr ref
          else Inl (KnownError (''File not found: '' @ ref)))"

text \<open>
  The specification's wording of the blob path, for comparison with \<open>blob_path\<close>: every
  \<^verbatim>\<open>:\<close> of the digest becomes \<^verbatim>\<open>-\<close>, and the result is placed under the \<^verbatim>\<open>blobs\<close>
  directory segment.
\<close>

definition spec_blob_path :: "string \<Rightarrow> string" where
  "spec_blob_path d = ''blobs'' @ sep # map (\<lambda>c. if c = CHR '':'' then CHR ''-'' else c) d"

section \<open>Example stores\<close>

text \<open>
  Two stores, \<^verbatim>\<open>/r\<close> and \<^verbatim>\<open>/s\<close>, each with one manifest and its blobs, seen from the
  working directory \<^verbatim>\<open>/home/user\<close>; and the same stores after one layer blob of the first
  manifest has been removed.
\<close>

definition llama_path :: string where
  "llama_path = ''/r/manifests/registry.ollama.ai/library/llama3/8b''"

definition phi_path :: string where
  "phi_path = ''/s/manifests/registry.ollama.ai/library/phi/mini''"

definition llama_manifest :: Manifest where
  "llama_manifest =
     \<lparr>schemaVersion = 2, mediaType = ''application/vnd.docker.distribution.manifest.v2+json'',
      config = \<lparr>layer_mediaType = ''application/vnd.docker.container.image.v1+json'',
                digest = ''sha256:aa'', layer_size = 100\<rparr>,
      layers = [\<lparr>layer_mediaType = ''application/vnd.ollama.image.model'',
                 digest = ''sha256:bb'', layer_size = 200\<rparr>,
                \<lparr>layer_mediaType = ''application/vnd.ollama.image.params'',
                 digest = ''sha256:cc'', layer_size = 300\<rparr>]\<rparr>"

definition phi_manifest :: Manifest where
  "phi_manifest =
     \<lparr>schemaVersion = 2, mediaType = ''application/vnd.docker.distribution.manifest.v2+json'',
      config = \<lparr>layer_mediaType = ''application/vnd.docker.container.image.v1+json'',
                digest = ''sha256:dd'', layer_size = 10\<rparr>,
      layers = []\<rparr>"

definition example_load :: "string \<Rightarrow> Manifest option" where
  "example_load p =
     (if p = llama_path then Some llama_manifest
      else if p = phi_path then Some phi_manifest
      else None)"

definition example_world :: world where
  "example_world =
     \<lparr>cwd = ''/home/user'',
      isfile = (\<lambda>p. p \<in> set [llama_path, ''/r/blobs/sha256-aa'', ''/r/blobs/sha256-bb'',
                               ''/r/blobs/sha256-cc'', phi_path, ''/s/blobs/sha256-dd'']),
      json_load = example_load\<rparr>"

definition damaged_world :: world where
  "damaged_world =
     \<lparr>cwd = ''/home/user'',
      isfile = (\<lambda>p. p \<in> set [llama_path, ''/r/blobs/sha256-aa'',
                               ''/r/blobs/sha256-cc'', phi_path, ''/s/blobs/sha256-dd'']),
      json_load = example_load\<rparr>"

definition llama_data :: ManifestData where
  "llama_data =
     \<lparr>root = ''/r'',
      files = [''manifests/registry.ollama.ai/library/llama3/8b'', ''blobs/sha256-aa'',
               ''blobs/sha256-bb'', ''blobs/sha256-cc''],
      data_size = 600\<rparr>"

definition phi_data :: ManifestData where
  "phi_data =
     \<lparr>root = ''/s'',
      files = [''manifests/registry.ollama.ai/library/phi/mini'', ''blobs/sha256-dd''],
      data_size = 10\<rparr>"

text \<open>
  A store \<^verbatim>\<open>/r\<close> whose manifest names, as its config digest, a string that begins with
  a separator; a file of that name with the colon replaced exists at the top directory.
\<close>

definition stray_path :: string where
  "stray_path = ''/r/manifests/registry.ollama.ai/library/stray/latest''"

definition stray_manifest :: Manifest where
  "stray_manifest =
     \<lparr>schemaVersion = 2, mediaType = ''application/vnd.docker.distribution.manifest.v2+json'',
      config = \<lparr>layer_mediaType = ''application/vnd.docker.container.image.v1+json'',
                digest = ''/sha256:deadbeef'', layer_size = 7\<rparr>,
      layers = []\<rparr>"

definition stray_world :: world where
  "stray_world =
     \<lparr>cwd = ''/home/user'',
      isfile = (\<lambda>p. p \<in> set [stray_path, ''/sha256-deadbeef'']),
      json_load = (\<lambda>p. if p = stray_path then Some stray_manifest else None)\<rparr>"

section \<open>Facts about the path functions\<close>

subsection \<open>Splitting and joining on the separator\<close>

lemma split_sep_no_sep: "sep \<notin> set s \<Longrightarrow> split_sep s = [s]"
  by (induction s) auto

lemma split_sep_append: "sep \<notin> set s \<Longrightarrow> split_sep (s @ sep # t) = s # split_sep t"
  by (induction s) auto

lemma split_sep_replicate: "split_sep (replicate k sep @ t) = replicate k [] @ split_sep t"
  by (induction k) auto

lemma split_sep_only_seps: "split_sep (replicate k sep) = replicate k [] @ [[]]"
  using split_sep_replicate [of k "[]"] by simp

lemma split_sep_join:
  "\<forall>s\<in>set segs. sep \<notin> set s \<Longrightarrow> segs \<noteq> [] \<Longrightarrow> split_sep (sep_join segs) = segs"
  by (induction segs rule: sep_join.induct) (auto simp: split_sep_no_sep split_sep_append)

lemma split_sep_pieces: "\<forall>x\<in>set (split_sep s). sep \<notin> set x"
  by (induction s) (auto split: list.splits)

lemma sep_join_snoc:
  "sep_join (xs @ [s]) = (if xs = [] then s else sep_join xs @ sep # s)"
  by (induction xs rule: sep_join.induct) auto

lemma sep_join_append:
  "xs \<noteq> [] \<Longrightarrow> ys \<noteq> [] \<Longrightarrow> sep_join (xs @ ys) = sep_join xs @ sep # sep_join ys"
  by (induction xs rule: sep_join.induct) (auto simp: neq_Nil_conv)

lemma segment_ends: "segment s \<Longrightarrow> s \<noteq> [] \<and> hd s \<noteq> sep \<and> last s \<noteq> sep"
  unfolding segment_def by (metis hd_in_set last_in_set)

lemma sep_join_ends:
  "segs \<noteq> [] \<Longrightarrow> \<forall>s\<in>set segs. segment s \<Longrightarrow>
     sep_join segs \<noteq> [] \<and> last (sep_join segs) \<noteq> sep \<and> hd (sep_join segs) \<noteq> sep"
proof (induction segs rule: sep_join.induct)
  case 1
  then show ?case by simp
next
  case (2 x)
  then show ?case using segment_ends [of x] by simp
next
  case (3 x y ys)
  then show ?case using segment_ends [of x] by simp
qed

lemma filter_split_rooted:
  assumes "\<forall>s\<in>set segs. segment s"
  shows "filter (\<lambda>x. x \<noteq> []) (split_sep (rooted k segs)) = segs"
proof (cases "segs = []")
  case True
  then show ?thesis by (simp add: rooted_def split_sep_only_seps)
next
  case False
  from assms have "\<forall>s\<in>set segs. sep \<notin> set s" "\<forall>s\<in>set segs. s \<noteq> []"
    by (simp_all add: segment_def)
  with False show ?thesis
    by (simp add: rooted_def split_sep_replicate split_sep_join filter_id_conv)
qed

subsection \<open>normpath and abspath\<close>

lemma norm_step_segment: "segment s \<Longrightarrow> norm_step ini acc s = acc @ [s]"
  by (simp add: norm_step_def segment_def)

lemma norm_step_empty: "norm_step ini acc [] = acc"
  by (simp add: norm_step_def)

lemma foldl_norm_step_segments:
  "\<forall>s\<in>set segs. segment s \<Longrightarrow> foldl (norm_step ini) acc segs = acc @ segs"
  by (induction segs arbitrary: acc) (auto simp: norm_step_segment)

lemma foldl_norm_step_empties: "foldl (norm_step ini) acc (replicate k []) = acc"
  by (induction k) (auto simp: norm_step_empty)

lemma initial_slashes_rooted:
  assumes "\<forall>s\<in>set segs. segment s" and "k = 1 \<or> k = 2"
  shows "initial_slashes (rooted k segs) = k"
proof (cases "segs = []")
  case True
  with assms(2) show ?thesis
    by (auto simp: initial_slashes_def rooted_def startswith_sep_def numeral_2_eq_2)
next
  case False
  with assms(1) have "sep_join segs \<noteq> [] \<and> hd (sep_join segs) \<noteq> sep"
    using sep_join_ends [of segs] by simp
  with assms(2) show ?thesis
    by (cases "sep_join segs")
       (auto simp: initial_slashes_def rooted_def startswith_sep_def numeral_2_eq_2)
qed

lemma normpath_rooted:
  assumes "\<forall>s\<in>set segs. segment s" and "k = 1 \<or> k = 2"
  shows "normpath (rooted k segs) = rooted k segs"
proof -
  have ne: "rooted k segs \<noteq> []" using assms(2) by (auto simp: rooted_def)
  have "foldl (norm_step k) [] (split_sep (rooted k segs)) = segs"
  proof (cases "segs = []")
    case True
    then show ?thesis
      by (simp add: rooted_def split_sep_only_seps foldl_norm_step_empties norm_step_empty)
  next
    case False
    from assms(1) have "\<forall>s\<in>set segs. sep \<notin> set s" by (simp add: segment_def)
    with False assms(1) show ?thesis
      by (simp add: rooted_def split_sep_replicate split_sep_join foldl_norm_step_empties
            foldl_norm_step_segments)
  qed
  with ne show ?thesis
    using initial_slashes_rooted [OF assms]
    by (simp add: normpath_def Let_def) (simp add: rooted_def)
qed

lemma startswith_sep_rooted: "0 < k \<Longrightarrow> startswith_sep (rooted k segs)"
  by (cases k) (auto simp: rooted_def startswith_sep_def)

lemma abspath_rooted:
  "\<forall>s\<in>set segs. segment s \<Longrightarrow> k = 1 \<or> k = 2 \<Longrightarrow> abspath c (rooted k segs) = rooted k segs"
  using startswith_sep_rooted [of k segs] by (auto simp: abspath_def normpath_rooted)

text \<open>Every normalised absolute path has this form.\<close>

lemma norm_step_keeps_segments:
  assumes "\<forall>x\<in>set acc. segment x" and "sep \<notin> set x" and "ini \<noteq> 0"
  shows "\<forall>y\<in>set (norm_step ini acc x). segment y"
proof (cases "acc = []")
  case True
  with assms show ?thesis by (auto simp: norm_step_def segment_def)
next
  case False
  with assms(1) have "segment (last acc)" by simp
  then have "last acc \<noteq> ''..''" by (simp add: segment_def)
  with assms show ?thesis
    by (auto simp: norm_step_def segment_def dest: in_set_butlastD)
qed

lemma foldl_norm_step_keeps_segments:
  "\<forall>x\<in>set acc. segment x \<Longrightarrow> \<forall>x\<in>set xs. sep \<notin> set x \<Longrightarrow> ini \<noteq> 0 \<Longrightarrow>
     \<forall>y\<in>set (foldl (norm_step ini) acc xs). segment y"
proof (induction xs arbitrary: acc)
  case Nil
  then show ?case by simp
next
  case (Cons x xs)
  have "\<forall>y\<in>set (norm_step ini acc x). segment y"
    using Cons.prems by (intro norm_step_keeps_segments) auto
  then show ?case using Cons.prems by (simp add: Cons.IH)
qed

lemma initial_slashes_absolute:
  "startswith_sep p \<Longrightarrow> initial_slashes p = 1 \<or> initial_slashes p = 2"
  by (simp add: initial_slashes_def)

lemma normpath_absolute_form:
  assumes "startswith_sep p"
  shows "\<exists>k segs. (k = 1 \<or> k = 2) \<and> (\<forall>s\<in>set segs. segment s) \<and> normpath p = rooted k segs"
proof -
  define k where "k = initial_slashes p"
  define segs where "segs = foldl (norm_step k) [] (split_sep p)"
  have k: "k = 1 \<or> k = 2" using assms initial_slashes_absolute k_def by simp
  then have "k \<noteq> 0" by auto
  then have segs: "\<forall>s\<in>set segs. segment s"
    unfolding segs_def using split_sep_pieces [of p]
    by (intro foldl_norm_step_keeps_segments) auto
  from assms have "p \<noteq> []" by (auto simp: startswith_sep_def)
  moreover from k have "replicate k sep @ sep_join segs \<noteq> []" by auto
  ultimately have "normpath p = rooted k segs"
    unfolding normpath_def Let_def rooted_def k_def [symmetric] segs_def [symmetric]
    by simp
  with k segs show ?thesis by blast
qed

lemma abspath_form:
  assumes "startswith_sep c"
  shows "\<exists>k segs. (k = 1 \<or> k = 2) \<and> (\<forall>s\<in>set segs. segment s) \<and> abspath c p = rooted k segs"
proof -
  have "startswith_sep (if \<not> startswith_sep p then join c [p] else p)"
    using assms
    by (cases c) (auto simp: join_def join_step_def startswith_sep_def)
  then show ?thesis unfolding abspath_def by (rule normpath_absolute_form)
qed

subsection \<open>join and dirname\<close>

lemma rooted_ends:
  assumes "\<forall>s\<in>set segs. segment s" and "0 < k"
  shows "rooted k segs \<noteq> [] \<and> (endswith_sep (rooted k segs) = (segs = []))"
proof (cases "segs = []")
  case True
  with assms(2) show ?thesis by (cases k) (auto simp: rooted_def endswith_sep_def)
next
  case False
  with assms(1) have "sep_join segs \<noteq> []" "last (sep_join segs) \<noteq> sep"
    using sep_join_ends by auto
  with False show ?thesis by (simp add: rooted_def endswith_sep_def)
qed

lemma join_step_rooted:
  assumes "\<forall>s\<in>set segs. segment s" and "\<forall>s\<in>set bs. segment s" and "bs \<noteq> []" and "0 < k"
  shows "join_step (rooted k segs) (sep_join bs) = rooted k (segs @ bs)"
proof -
  from assms(2,3) have b: "sep_join bs \<noteq> []" "hd (sep_join bs) \<noteq> sep"
    using sep_join_ends by auto
  then have nb: "\<not> startswith_sep (sep_join bs)"
    by (cases "sep_join bs") (auto simp: startswith_sep_def)
  show ?thesis
  proof (cases "segs = []")
    case True
    then show ?thesis
      using nb rooted_ends [OF assms(1,4)] by (simp add: join_step_def) (simp add: rooted_def)
  next
    case False
    then show ?thesis
      using nb rooted_ends [OF assms(1,4)] assms(3)
      by (simp add: join_step_def) (simp add: rooted_def sep_join_append)
  qed
qed

lemma join_rooted:
  "\<forall>s\<in>set segs. segment s \<Longrightarrow> \<forall>s\<in>set bs. segment s \<Longrightarrow> 0 < k \<Longrightarrow>
     join (rooted k segs) bs = rooted k (segs @ bs)"
proof (induction bs arbitrary: segs)
  case Nil
  then show ?case by (simp add: join_def)
next
  case (Cons b bs)
  have "join (rooted k segs) (b # bs) = join (join_step (rooted k segs) (sep_join [b])) bs"
    by (simp add: join_def)
  also have "\<dots> = join (rooted k (segs @ [b])) bs"
    using Cons.prems by (subst join_step_rooted) auto
  also have "\<dots> = rooted k ((segs @ [b]) @ bs)"
    using Cons.prems by (intro Cons.IH) auto
  finally show ?case by simp
qed

lemma join_segments: "\<forall>s\<in>set (r # rs). segment s \<Longrightarrow> join r rs = sep_join (r # rs)"
proof (induction rs arbitrary: r rule: rev_induct)
  case Nil
  then show ?case by (simp add: join_def)
next
  case (snoc x xs)
  then have ih: "join r xs = sep_join (r # xs)" by simp
  from snoc.prems have e: "sep_join (r # xs) \<noteq> []" "last (sep_join (r # xs)) \<noteq> sep"
    using sep_join_ends [of "r # xs"] by auto
  from snoc.prems have x: "\<not> startswith_sep x"
    using segment_ends [of x] by (cases x) (auto simp: startswith_sep_def)
  have "join r (xs @ [x]) = join_step (join r xs) x" by (simp add: join_def)
  also have "\<dots> = sep_join (r # xs) @ sep # x"
    using e x by (simp add: ih join_step_def endswith_sep_def)
  also have "\<dots> = sep_join ((r # xs) @ [x])" by (simp only: sep_join_snoc) simp
  finally show ?case by simp
qed

lemma dirname_rooted_snoc:
  assumes "\<forall>s\<in>set segs. segment s" and "segment s" and "0 < k"
  shows "dirname (rooted k (segs @ [s])) = rooted k segs"
proof (cases "segs = []")
  case True
  from assms(2) have "dropWhile (\<lambda>c. c \<noteq> sep) (rev s @ replicate k sep) = replicate k sep"
    using assms(3) by (cases k) (auto simp: segment_def dropWhile_append)
  with True show ?thesis
    by (simp add: dirname_def rooted_def Let_def)
next
  case False
  from assms(2) have dw: "dropWhile (\<lambda>c. c \<noteq> sep) (rev s @ sep # xs) = sep # xs" for xs
    by (auto simp: segment_def dropWhile_append)
  have l: "sep_join segs \<noteq> []" "last (sep_join segs) \<noteq> sep"
    using False assms(1) sep_join_ends by auto
  have head: "rev (dropWhile (\<lambda>c. c \<noteq> sep) (rev (rooted k (segs @ [s])))) = rooted k segs @ [sep]"
    using False by (simp add: rooted_def sep_join_snoc dw)
  have ne: "rooted k segs @ [sep] \<noteq> replicate (length (rooted k segs @ [sep])) sep"
  proof
    assume "rooted k segs @ [sep] = replicate (length (rooted k segs @ [sep])) sep"
    then have "set (rooted k segs @ [sep]) \<subseteq> {sep}"
      by (metis set_replicate_conv_if empty_subsetI subset_refl)
    then have "set (sep_join segs) \<subseteq> {sep}" by (auto simp: rooted_def)
    with l show False by (metis last_in_set subsetD singletonD)
  qed
  have strip: "rstrip_sep (rooted k segs @ [sep]) = rooted k segs"
    using l by (cases "rev (sep_join segs)") (auto simp: rstrip_sep_def rooted_def)
  show ?thesis
    unfolding dirname_def Let_def head using ne strip by simp
qed

lemma dirname_rooted_Nil: "dirname (rooted k []) = rooted k []"
  by (simp add: dirname_def rooted_def Let_def)

lemma dirname_rooted:
  "\<forall>s\<in>set segs. segment s \<Longrightarrow> 0 < k \<Longrightarrow> dirname (rooted k segs) = rooted k (butlast segs)"
  by (cases segs rule: rev_cases) (auto simp: dirname_rooted_Nil dirname_rooted_snoc)

lemma manifest_root_rooted:
  assumes "\<forall>s\<in>set segs. segment s" and "0 < k"
  shows "manifest_root (rooted k segs) = rooted k (take (length segs - 5) segs)"
proof -
  have up: "\<forall>s\<in>set (butlast xs). segment s" if "\<forall>s\<in>set xs. segment s" for xs
    using that by (auto dest: in_set_butlastD)
  define s1 where "s1 = butlast segs"
  define s2 where "s2 = butlast s1"
  define s3 where "s3 = butlast s2"
  define s4 where "s4 = butlast s3"
  have g1: "\<forall>s\<in>set s1. segment s" unfolding s1_def using assms(1) by (rule up)
  have g2: "\<forall>s\<in>set s2. segment s" unfolding s2_def using g1 by (rule up)
  have g3: "\<forall>s\<in>set s3. segment s" unfolding s3_def using g2 by (rule up)
  have g4: "\<forall>s\<in>set s4. segment s" unfolding s4_def using g3 by (rule up)
  have "manifest_root (rooted k segs) = rooted k (butlast s4)"
    unfolding manifest_root_def
    by (simp only: dirname_rooted [OF assms] dirname_rooted [OF g1 assms(2)]
          dirname_rooted [OF g2 assms(2)] dirname_rooted [OF g3 assms(2)]
          dirname_rooted [OF g4 assms(2)] s1_def [symmetric] s2_def [symmetric]
          s3_def [symmetric] s4_def [symmetric])
  also have "butlast s4 = take (length segs - 5) segs"
    unfolding s4_def s3_def s2_def s1_def by (simp add: butlast_conv_take eval_nat_numeral)
  finally show ?thesis .
qed

section \<open>Facts about building and resolving\<close>

lemma normpath_nonempty: "normpath p \<noteq> []"
  by (simp add: normpath_def Let_def)

lemma abspath_nonempty: "abspath c p \<noteq> []"
  by (simp add: abspath_def normpath_nonempty)

lemma relpath_abspath_total: "\<exists>rel. relpath c (abspath c' p) r = Inr rel"
  by (simp add: relpath_def abspath_nonempty Let_def split: list.split)

lemma check_files_find:
  "check_files w r fs =
     (case find (\<lambda>f. \<not> isfile w (join r [f])) fs of
        None \<Rightarrow> Inr ()
      | Some f \<Rightarrow> Inl (KnownError (''File not found: '' @ join r [f])))"
  by (induction fs) (simp_all add: Let_def)

lemma get_ollama_manifest_data_unfold:
  assumes "read_ollama_manifest w (abspath (cwd w) manifest) = Inr m"
    and "relpath (cwd w) (abspath (cwd w) manifest) (manifest_root (abspath (cwd w) manifest)) = Inr rel"
  shows "get_ollama_manifest_data w manifest =
     (case check_files w (manifest_root (abspath (cwd w) manifest))
             (rel # blob_path (digest (config m)) # map (\<lambda>l. blob_path (digest l)) (layers m)) of
        Inl e \<Rightarrow> Inl e
      | Inr _ \<Rightarrow> Inr \<lparr>root = manifest_root (abspath (cwd w) manifest),
                       files = rel # blob_path (digest (config m)) # map (\<lambda>l. blob_path (digest l)) (layers m),
                       data_size = sum_list (map layer_size (layers m)) + layer_size (config m)\<rparr>)"
  using assms
  by (simp add: get_ollama_manifest_data_def Let_def comp_def del: check_files.simps
        split: sum.split)

lemma get_ollama_manifest_data_Inr:
  assumes "get_ollama_manifest_data w manifest = Inr d"
  obtains m rel where
    "read_ollama_manifest w (abspath (cwd w) manifest) = Inr m"
    "relpath (cwd w) (abspath (cwd w) manifest) (manifest_root (abspath (cwd w) manifest)) = Inr rel"
    "check_files w (manifest_root (abspath (cwd w) manifest))
       (rel # blob_path (digest (config m)) # map (\<lambda>l. blob_path (digest l)) (layers m)) = Inr ()"
    "d = \<lparr>root = manifest_root (abspath (cwd w) manifest),
          files = rel # blob_path (digest (config m)) # map (\<lambda>l. blob_path (digest l)) (layers m),
          data_size = sum_list (map layer_size (layers m)) + layer_size (config m)\<rparr>"
  using assms
  by (auto simp: get_ollama_manifest_data_def Let_def comp_def simp del: check_files.simps split: sum.splits)

lemma find_None_all: "(find P xs = None) = (\<forall>x\<in>set xs. \<not> P x)"
  by (induction xs) auto

lemma manifests_data_Inr:
  "get_ollama_manifests_data w ms = Inr ds \<Longrightarrow>
     length ds = length ms \<and> (\<forall>i<length ms. get_ollama_manifest_data w (ms ! i) = Inr (ds ! i))"
proof (induction ms arbitrary: ds)
  case Nil
  then show ?case by simp
next
  case (Cons a ms)
  then show ?case
    by (auto split: sum.splits simp: nth_Cons split: nat.splits)
qed

lemma manifests_data_Inl:
  "manifest \<in> set ms \<Longrightarrow> get_ollama_manifest_data w manifest = Inl e' \<Longrightarrow>
     \<exists>e. get_ollama_manifests_data w ms = Inl e"
  by (induction ms) (auto split: sum.splits)

lemma manifests_data_first_failure:
  "(\<forall>u\<in>set pre. \<exists>d. get_ollama_manifest_data w u = Inr d) \<Longrightarrow>
   get_ollama_manifest_data w manifest = Inl e \<Longrightarrow>
   get_ollama_manifests_data w (pre @ manifest # post) = Inl e"
  by (induction pre) (auto split: sum.splits)

lemma resolve_manifests_Inr:
  "resolve_manifests w vs md = Inr ms \<Longrightarrow>
     length ms = length vs \<and> (\<forall>i<length vs. resolve_manifest w md (vs ! i) = Inr (ms ! i))"
proof (induction vs arbitrary: ms)
  case Nil
  then show ?case by simp
next
  case (Cons v vs)
  then show ?case
    by (auto split: sum.splits simp: nth_Cons split: nat.splits)
qed

lemma resolve_manifests_first_failure:
  "(\<forall>u\<in>set pre. \<exists>m. resolve_manifest w md u = Inr m) \<Longrightarrow>
   resolve_manifest w md v = Inl e \<Longrightarrow>
   resolve_manifests w (pre @ v # post) md = Inl e"
  by (induction pre) (auto split: sum.splits)

lemma resolve_manifests_all_ok:
  "(\<forall>u\<in>set vs. \<exists>m. resolve_manifest w md u = Inr m) \<Longrightarrow>
   \<exists>ms. resolve_manifests w vs md = Inr ms"
  by (induction vs) (auto split: sum.splits)

section \<open>The claims\<close>

text \<open>
  C1. Whenever the manifest at the given path decodes to a record \<open>m\<close> and the build
  succeeds, the file list has \<open>2 + n\<close> entries for the \<open>n\<close> layers of \<open>m\<close>: first the
  manifest's own path relative to the inferred root, then the blob path of the config
  digest, then the blob paths of the layers in the order of the manifest.
\<close>

theorem build_files_layout:
  assumes "read_ollama_manifest w (abspath (cwd w) manifest) = Inr m"
    and "get_ollama_manifest_data w manifest = Inr d"
  shows "length (files d) = 2 + length (layers m)
       \<and> (\<exists>rel. relpath (cwd w) (abspath (cwd w) manifest) (root d) = Inr rel
            \<and> files d = rel # blob_path (digest (config m))
                           # map (\<lambda>l. blob_path (digest l)) (layers m))"
proof -
  from assms(2) obtain m' rel where
    m': "read_ollama_manifest w (abspath (cwd w) manifest) = Inr m'"
    and rel: "relpath (cwd w) (abspath (cwd w) manifest)
                (manifest_root (abspath (cwd w) manifest)) = Inr rel"
    and d: "d = \<lparr>root = manifest_root (abspath (cwd w) manifest),
          files = rel # blob_path (digest (config m'))
                      # map (\<lambda>l. blob_path (digest l)) (layers m'),
          data_size = sum_list (map layer_size (layers m')) + layer_size (config m')\<rparr>"
    by (rule get_ollama_manifest_data_Inr)
  from m' assms(1) have "m' = m" by simp
  with rel d show ?thesis by simp
qed

theorem build_files_layout_witness:
  "get_ollama_manifest_data example_world llama_path = Inr llama_data
   \<and> length (files llama_data) = 2 + length (layers llama_manifest)
   \<and> files llama_data =
       [''manifests/registry.ollama.ai/library/llama3/8b'', blob_path ''sha256:aa'',
        blob_path ''sha256:bb'', blob_path ''sha256:cc'']"
proof -
  have r: "read_ollama_manifest example_world (abspath (cwd example_world) llama_path)
             = Inr llama_manifest"
    by code_simp
  have g: "get_ollama_manifest_data example_world llama_path = Inr llama_data"
    by code_simp
  have f: "files llama_data ! 0 = ''manifests/registry.ollama.ai/library/llama3/8b''"
    by code_simp
  from build_files_layout [OF r g] obtain rel where
    "files llama_data = rel # blob_path (digest (config llama_manifest))
                        # map (\<lambda>l. blob_path (digest l)) (layers llama_manifest)"
    and "length (files llama_data) = 2 + length (layers llama_manifest)"
    by blast
  with f g show ?thesis by (simp add: llama_manifest_def)
qed

text \<open>
  C2. The size of a successfully built file set is the size of the config layer plus the
  sum of the sizes of the layers. Nothing else enters it: the size of the manifest file
  itself is not even observed by the program.
\<close>

theorem build_size:
  assumes "read_ollama_manifest w (abspath (cwd w) manifest) = Inr m"
    and "get_ollama_manifest_data w manifest = Inr d"
  shows "data_size d = layer_size (config m) + (\<Sum>l\<leftarrow>layers m. layer_size l)"
proof -
  from assms(2) obtain m' where
    m': "read_ollama_manifest w (abspath (cwd w) manifest) = Inr m'"
    and d: "data_size d = sum_list (map layer_size (layers m')) + layer_size (config m')"
    by (rule get_ollama_manifest_data_Inr) simp
  from m' assms(1) have "m' = m" by simp
  with d show ?thesis by simp
qed

theorem build_size_witness:
  "get_ollama_manifest_data example_world llama_path = Inr llama_data
   \<and> data_size llama_data = 100 + (200 + 300)"
proof -
  have r: "read_ollama_manifest example_world (abspath (cwd example_world) llama_path)
             = Inr llama_manifest"
    by code_simp
  have g: "get_ollama_manifest_data example_world llama_path = Inr llama_data"
    by code_simp
  from build_size [OF r g] g show ?thesis by (simp add: llama_manifest_def)
qed

text \<open>
  C3. The root is the manifest's absolute path taken five directory levels up, the parent
  of the top directory being the top directory itself: when the working directory is
  absolute, the absolute path of any manifest is a normalised path of some segments, and
  the root is the path of all but the last five of them. In particular a manifest at
  \<^verbatim>\<open>root/manifests/registry.ollama.ai/library/NAME/TAG\<close>, for a normalised absolute
  \<open>root\<close>, has exactly that root.
\<close>

theorem root_five_levels_up:
  "(startswith_sep c \<longrightarrow>
      (\<exists>k segs. (k = 1 \<or> k = 2) \<and> (\<forall>s\<in>set segs. segment s)
         \<and> abspath c manifest = rooted k segs
         \<and> manifest_root (abspath c manifest) = rooted k (take (length segs - 5) segs)))
   \<and> ((k = 1 \<or> k = 2) \<and> (\<forall>s\<in>set segs. segment s) \<and> segment name \<and> segment tag \<longrightarrow>
        manifest_root (abspath c
          (join (rooted k segs) [''manifests'', ''registry.ollama.ai'', ''library'', name, tag]))
        = rooted k segs)"
proof (intro conjI impI)
  assume "startswith_sep c"
  then obtain k segs where
    k: "k = 1 \<or> k = 2" and segs: "\<forall>s\<in>set segs. segment s"
    and a: "abspath c manifest = rooted k segs"
    using abspath_form by blast
  from k have "0 < k" by auto
  with segs have "manifest_root (rooted k segs) = rooted k (take (length segs - 5) segs)"
    by (rule manifest_root_rooted)
  with k segs a show "\<exists>k segs. (k = 1 \<or> k = 2) \<and> (\<forall>s\<in>set segs. segment s)
         \<and> abspath c manifest = rooted k segs
         \<and> manifest_root (abspath c manifest) = rooted k (take (length segs - 5) segs)"
    by auto
next
  assume h: "(k = 1 \<or> k = 2) \<and> (\<forall>s\<in>set segs. segment s) \<and> segment name \<and> segment tag"
  define below where
    "below = [''manifests'', ''registry.ollama.ai'', ''library'', name, tag]"
  have fixed: "segment ''manifests''" "segment ''registry.ollama.ai''" "segment ''library''"
    by (simp_all add: segment_def sep_def)
  with h have below: "\<forall>s\<in>set below. segment s" by (simp add: below_def)
  from h have k: "0 < k" by auto
  have all: "\<forall>s\<in>set (segs @ below). segment s" using h below by auto
  have "join (rooted k segs) below = rooted k (segs @ below)"
    using h below k by (intro join_rooted) auto
  moreover have "abspath c (rooted k (segs @ below)) = rooted k (segs @ below)"
    using all h by (intro abspath_rooted) auto
  moreover have "manifest_root (rooted k (segs @ below))
                   = rooted k (take (length (segs @ below) - 5) (segs @ below))"
    using all k by (rule manifest_root_rooted)
  moreover have "take (length (segs @ below) - 5) (segs @ below) = segs"
    by (simp add: below_def)
  ultimately show "manifest_root (abspath c
          (join (rooted k segs) [''manifests'', ''registry.ollama.ai'', ''library'', name, tag]))
        = rooted k segs"
    by (simp add: below_def)
qed

theorem root_five_levels_up_witness:
  "startswith_sep ''/home/user'' \<and> segment ''r'' \<and> segment ''llama3'' \<and> segment ''8b''
   \<and> join (rooted 1 [''r''])
        [''manifests'', ''registry.ollama.ai'', ''library'', ''llama3'', ''8b''] = llama_path
   \<and> manifest_root (abspath ''/home/user'' llama_path) = ''/r''"
proof -
  have h: "startswith_sep ''/home/user''" "segment ''r''" "segment ''llama3''" "segment ''8b''"
    by code_simp+
  have j: "join (rooted 1 [''r''])
        [''manifests'', ''registry.ollama.ai'', ''library'', ''llama3'', ''8b''] = llama_path"
    by code_simp
  have r: "rooted 1 [''r''] = ''/r''" by code_simp
  from root_five_levels_up [of "''/home/user''" llama_path 1 "[''r'']" "''llama3''" "''8b''"] h
  have "manifest_root (abspath ''/home/user''
          (join (rooted 1 [''r''])
             [''manifests'', ''registry.ollama.ai'', ''library'', ''llama3'', ''8b'']))
        = rooted 1 [''r'']"
    by simp
  with h j r show ?thesis by simp
qed

lemma join_absolute:
  assumes "startswith_sep r"
  shows "startswith_sep (join r [f])"
  using assms by (cases r) (auto simp: join_def join_step_def startswith_sep_def)

lemma manifest_root_absolute:
  assumes "startswith_sep c"
  shows "startswith_sep (manifest_root (abspath c manifest))"
proof -
  from assms obtain k segs where
    k: "k = 1 \<or> k = 2" and segs: "\<forall>s\<in>set segs. segment s"
    and a: "abspath c manifest = rooted k segs"
    using abspath_form by blast
  from k have "0 < k" by auto
  then show ?thesis
    using manifest_root_rooted [OF segs] a by (simp add: startswith_sep_rooted)
qed

text \<open>
  C4. Once the manifest has been decoded, the build checks every entry of the file list,
  in order, joined with the root: it fails with the error \<^verbatim>\<open>File not found\<close> naming
  the joined path of the first entry that is not an existing regular file, and it
  succeeds exactly when every joined entry is one. The joined paths are absolute when the
  working directory is. The listing runs this check too: it completes only if the files of
  every manifest it was given exist.
\<close>

theorem build_verifies_files:
  assumes "read_ollama_manifest w (abspath (cwd w) manifest) = Inr m"
  shows "\<exists>rel.
      relpath (cwd w) (abspath (cwd w) manifest) (manifest_root (abspath (cwd w) manifest)) = Inr rel
    \<and> (let r = manifest_root (abspath (cwd w) manifest);
            fs = rel # blob_path (digest (config m)) # map (\<lambda>l. blob_path (digest l)) (layers m)
        in get_ollama_manifest_data w manifest =
             (case find (\<lambda>f. \<not> isfile w (join r [f])) fs of
                Some f \<Rightarrow> Inl (KnownError (''File not found: '' @ join r [f]))
              | None \<Rightarrow> Inr \<lparr>root = r, files = fs,
                     data_size = sum_list (map layer_size (layers m)) + layer_size (config m)\<rparr>)
          \<and> ((\<exists>d. get_ollama_manifest_data w manifest = Inr d)
               = (\<forall>f\<in>set fs. isfile w (join r [f])))
          \<and> (startswith_sep (cwd w) \<longrightarrow> (\<forall>f\<in>set fs. startswith_sep (join r [f])))
          \<and> (\<forall>manifests out. manifest \<in> set manifests
                \<and> list_command w manifests = (out, None)
                \<longrightarrow> (\<forall>f\<in>set fs. isfile w (join r [f]))))"
proof -
  obtain rel where rel:
    "relpath (cwd w) (abspath (cwd w) manifest) (manifest_root (abspath (cwd w) manifest)) = Inr rel"
    using relpath_abspath_total by blast
  define r where "r = manifest_root (abspath (cwd w) manifest)"
  define fs where "fs = rel # blob_path (digest (config m)) # map (\<lambda>l. blob_path (digest l)) (layers m)"
  have eq: "get_ollama_manifest_data w manifest =
             (case find (\<lambda>f. \<not> isfile w (join r [f])) fs of
                Some f \<Rightarrow> Inl (KnownError (''File not found: '' @ join r [f]))
              | None \<Rightarrow> Inr \<lparr>root = r, files = fs,
                     data_size = sum_list (map layer_size (layers m)) + layer_size (config m)\<rparr>)"
    unfolding get_ollama_manifest_data_unfold [OF assms rel] check_files_find r_def fs_def
    by (simp split: option.split)
  have iff: "(\<exists>d. get_ollama_manifest_data w manifest = Inr d)
               = (\<forall>f\<in>set fs. isfile w (join r [f]))"
  proof (cases "find (\<lambda>f. \<not> isfile w (join r [f])) fs")
    case None
    moreover from None have "\<forall>f\<in>set fs. isfile w (join r [f])"
      by (simp add: find_None_all)
    ultimately show ?thesis using eq by simp
  next
    case (Some f)
    then have "\<not> (\<forall>f\<in>set fs. isfile w (join r [f]))"
      using find_None_all [of "\<lambda>f. \<not> isfile w (join r [f])" fs] by auto
    then show ?thesis using eq Some by simp
  qed
  have ab: "startswith_sep (cwd w) \<longrightarrow> (\<forall>f\<in>set fs. startswith_sep (join r [f]))"
    unfolding r_def by (simp add: manifest_root_absolute join_absolute)
  have lst: "\<forall>manifests out. manifest \<in> set manifests
                \<and> list_command w manifests = (out, None)
                \<longrightarrow> (\<forall>f\<in>set fs. isfile w (join r [f]))"
  proof (intro allI impI)
    fix manifests out
    assume a: "manifest \<in> set manifests \<and> list_command w manifests = (out, None)"
    have "\<exists>d. get_ollama_manifest_data w manifest = Inr d"
    proof (cases "get_ollama_manifest_data w manifest")
      case (Inl e)
      with a obtain e' where "get_ollama_manifests_data w manifests = Inl e'"
        using manifests_data_Inl by blast
      with a show ?thesis by (simp add: list_command_def)
    next
      case (Inr d)
      then show ?thesis by blast
    qed
    with iff show "\<forall>f\<in>set fs. isfile w (join r [f])" by simp
  qed
  show ?thesis
    using rel eq iff ab lst unfolding r_def fs_def Let_def by blast
qed

theorem build_verifies_files_witness:
  "read_ollama_manifest damaged_world (abspath (cwd damaged_world) llama_path) = Inr llama_manifest
   \<and> \<not> isfile damaged_world ''/r/blobs/sha256-bb''
   \<and> get_ollama_manifest_data damaged_world llama_path
       = Inl (KnownError ''File not found: /r/blobs/sha256-bb'')"
proof -
  have r: "read_ollama_manifest damaged_world (abspath (cwd damaged_world) llama_path)
             = Inr llama_manifest"
    by code_simp
  have n: "\<not> isfile damaged_world ''/r/blobs/sha256-bb''"
    by code_simp
  have rp: "relpath (cwd damaged_world) (abspath (cwd damaged_world) llama_path)
              (manifest_root (abspath (cwd damaged_world) llama_path))
            = Inr ''manifests/registry.ollama.ai/library/llama3/8b''"
    by code_simp
  have f: "(case find (\<lambda>f. \<not> isfile damaged_world
                 (join (manifest_root (abspath (cwd damaged_world) llama_path)) [f]))
               (''manifests/registry.ollama.ai/library/llama3/8b''
                # blob_path (digest (config llama_manifest))
                # map (\<lambda>l. blob_path (digest l)) (layers llama_manifest)) of
             Some f \<Rightarrow> Inl (KnownError (''File not found: ''
                 @ join (manifest_root (abspath (cwd damaged_world) llama_path)) [f]))
           | None \<Rightarrow> Inr \<lparr>root = manifest_root (abspath (cwd damaged_world) llama_path),
                  files = ''manifests/registry.ollama.ai/library/llama3/8b''
                    # blob_path (digest (config llama_manifest))
                    # map (\<lambda>l. blob_path (digest l)) (layers llama_manifest),
                  data_size = sum_list (map layer_size (layers llama_manifest))
                    + layer_size (config llama_manifest)\<rparr>)
          = Inl (KnownError ''File not found: /r/blobs/sha256-bb'')"
    by code_simp
  from build_verifies_files [OF r] rp
  have "get_ollama_manifest_data damaged_world llama_path
          = Inl (KnownError ''File not found: /r/blobs/sha256-bb'')"
    unfolding Let_def f [symmetric] by auto
  with r n show ?thesis by simp
qed

subsection \<open>The pattern against the specification's wording\<close>

lemma not_word_char_colon: "\<not> word_char (CHR '':'')"
  by (simp add: word_char_def alnum_def)

lemma not_word_char_newline: "\<not> word_char (CHR 0x0A)"
  by (simp add: word_char_def alnum_def)

lemma spec_part_no_colon: "spec_part s \<Longrightarrow> CHR '':'' \<notin> set s"
proof (cases s)
  case Nil
  then show "spec_part s \<Longrightarrow> CHR '':'' \<notin> set s" by simp
next
  case (Cons c cs)
  assume "spec_part s"
  with Cons have "alnum c" "list_all word_char cs" by (simp_all add: spec_part_def)
  then have "word_char c" "\<forall>x\<in>set cs. word_char x"
    by (simp_all add: word_char_def list_all_iff)
  with Cons show "CHR '':'' \<notin> set s" using not_word_char_colon by auto
qed

lemma spec_reference_Some:
  "(spec_reference s = Some (n, t)) = (s = n @ CHR '':'' # t \<and> spec_part n \<and> spec_part t)"
proof
  assume a: "spec_reference s = Some (n, t)"
  have split: "s = takeWhile (\<lambda>c. c \<noteq> CHR '':'') s @ dropWhile (\<lambda>c. c \<noteq> CHR '':'') s"
    by simp
  from a obtain x where
    d: "dropWhile (\<lambda>c. c \<noteq> CHR '':'') s = x # t"
    and n: "n = takeWhile (\<lambda>c. c \<noteq> CHR '':'') s"
    and p: "spec_part n" "spec_part t"
    by (auto simp: spec_reference_def Let_def split: list.splits if_splits)
  from d have "x = CHR '':''"
    using hd_dropWhile [of "\<lambda>c. c \<noteq> CHR '':''" s] by (metis list.sel(1) list.distinct(1))
  with split d n p show "s = n @ CHR '':'' # t \<and> spec_part n \<and> spec_part t"
    by metis
next
  assume a: "s = n @ CHR '':'' # t \<and> spec_part n \<and> spec_part t"
  then have "CHR '':'' \<notin> set n" using spec_part_no_colon by blast
  then have "takeWhile (\<lambda>c. c \<noteq> CHR '':'') (n @ CHR '':'' # t) = n"
    and "dropWhile (\<lambda>c. c \<noteq> CHR '':'') (n @ CHR '':'' # t) = CHR '':'' # t"
    by (simp_all add: takeWhile_append dropWhile_append)
  with a show "spec_reference s = Some (n, t)"
    by (simp add: spec_reference_def Let_def)
qed

lemma match_group_Some:
  "(match_group s = Some (g, r)) =
     (spec_part g \<and> s = g @ r \<and> (r = [] \<or> \<not> word_char (hd r)))"
proof (cases s)
  case Nil
  then show ?thesis by (auto simp: match_group_def spec_part_def)
next
  case (Cons c cs)
  show ?thesis
  proof
    assume "match_group s = Some (g, r)"
    with Cons have c: "alnum c" and g: "g = c # takeWhile word_char cs"
      and r: "r = dropWhile word_char cs"
      by (auto simp: match_group_def split: if_splits)
    from g c have "spec_part g"
      by (simp add: spec_part_def list_all_iff) (meson set_takeWhileD)
    moreover from Cons g r have "s = g @ r" by simp
    moreover from r have "r = [] \<or> \<not> word_char (hd r)"
      using hd_dropWhile [of word_char cs] by auto
    ultimately show "spec_part g \<and> s = g @ r \<and> (r = [] \<or> \<not> word_char (hd r))" by blast
  next
    assume a: "spec_part g \<and> s = g @ r \<and> (r = [] \<or> \<not> word_char (hd r))"
    then obtain c' gs where g: "g = c' # gs" and c': "alnum c'" and gs: "list_all word_char gs"
      by (cases g) (auto simp: spec_part_def)
    with a Cons have cs: "c' = c" "cs = gs @ r" by auto
    from gs have all: "\<forall>x\<in>set gs. word_char x" by (simp add: list_all_iff)
    from a have "takeWhile word_char (gs @ r) = gs \<and> dropWhile word_char (gs @ r) = r"
    proof (cases r)
      case Nil
      with all show ?thesis by simp
    next
      case (Cons x xs)
      with a have "\<not> word_char x" by simp
      with all Cons show ?thesis by (simp add: takeWhile_append dropWhile_append)
    qed
    with Cons g c' cs show "match_group s = Some (g, r)"
      by (simp add: match_group_def)
  qed
qed

lemma model_pattern_match_Some:
  "(model_pattern_match s = Some (n, t)) =
     (spec_part n \<and> spec_part t \<and> (s = n @ CHR '':'' # t \<or> s = n @ CHR '':'' # t @ [CHR 0x0A]))"
proof
  assume a: "model_pattern_match s = Some (n, t)"
  then obtain s1 s2 s3 where g1: "match_group s = Some (n, s1)"
    and s1: "s1 = CHR '':'' # s2"
    and g2: "match_group s2 = Some (t, s3)"
    and s3: "s3 = [] \<or> s3 = [CHR 0x0A]"
    by (auto simp: model_pattern_match_def split: option.splits list.splits if_splits)
  from g1 have "spec_part n" "s = n @ s1" by (simp_all add: match_group_Some)
  moreover from g2 have "spec_part t" "s2 = t @ s3" by (simp_all add: match_group_Some)
  ultimately show "spec_part n \<and> spec_part t
      \<and> (s = n @ CHR '':'' # t \<or> s = n @ CHR '':'' # t @ [CHR 0x0A])"
    using s1 s3 by auto
next
  assume a: "spec_part n \<and> spec_part t
      \<and> (s = n @ CHR '':'' # t \<or> s = n @ CHR '':'' # t @ [CHR 0x0A])"
  then obtain s3 where s3: "s3 = [] \<or> s3 = [CHR 0x0A]" and s: "s = n @ CHR '':'' # t @ s3"
    by auto
  from a s have "match_group s = Some (n, CHR '':'' # t @ s3)"
    by (simp add: match_group_Some not_word_char_colon)
  moreover from a s3 have "match_group (t @ s3) = Some (t, s3)"
    by (auto simp: match_group_Some not_word_char_newline)
  ultimately show "model_pattern_match s = Some (n, t)"
    using s3 by (auto simp: model_pattern_match_def)
qed

text \<open>
  The pattern accepts what the specification describes, and in addition the same
  followed by one newline.
\<close>

lemma model_pattern_match_spec:
  "model_pattern_match s =
     (if s \<noteq> [] \<and> last s = CHR 0x0A then spec_reference (butlast s) else spec_reference s)"
proof -
  have nl: "CHR 0x0A \<notin> set t" if "spec_part t" for t
  proof (cases t)
    case Nil
    with that show ?thesis by (simp add: spec_part_def)
  next
    case (Cons c cs)
    with that have "alnum c" "list_all word_char cs" by (simp_all add: spec_part_def)
    then have "word_char c" "\<forall>x\<in>set cs. word_char x"
      by (simp_all add: word_char_def list_all_iff)
    with Cons show ?thesis using not_word_char_newline by auto
  qed
  have last_t: "last (n @ CHR '':'' # t) \<noteq> CHR 0x0A" if "spec_part t" for n t
  proof -
    from that have "t \<noteq> []" by (auto simp: spec_part_def)
    then have "last (n @ CHR '':'' # t) = last t" by simp
    moreover from \<open>t \<noteq> []\<close> have "last t \<in> set t" by simp
    ultimately show ?thesis using nl [OF that] by metis
  qed
  show ?thesis
  proof (cases "s \<noteq> [] \<and> last s = CHR 0x0A")
    case True
    then have s: "s = butlast s @ [CHR 0x0A]" by (metis append_butlast_last_id)
    have "(model_pattern_match s = Some (n, t)) = (spec_reference (butlast s) = Some (n, t))"
      for n t
    proof -
      have "(s = n @ CHR '':'' # t \<or> s = n @ CHR '':'' # t @ [CHR 0x0A])
              = (butlast s = n @ CHR '':'' # t)" if "spec_part t"
      proof -
        from True last_t [OF that] have "s \<noteq> n @ CHR '':'' # t" by metis
        moreover have "(s = n @ CHR '':'' # t @ [CHR 0x0A]) = (butlast s = n @ CHR '':'' # t)"
          using s by (metis append.assoc append_Cons butlast_snoc)
        ultimately show ?thesis by simp
      qed
      then show ?thesis
        unfolding model_pattern_match_Some spec_reference_Some by auto
    qed
    then have "model_pattern_match s = spec_reference (butlast s)"
      by (metis option.exhaust surj_pair)
    with True show ?thesis by simp
  next
    case False
    have "(model_pattern_match s = Some (n, t)) = (spec_reference s = Some (n, t))" for n t
    proof -
      have "s \<noteq> n @ CHR '':'' # t @ [CHR 0x0A]"
        using False by auto
      then show ?thesis
        unfolding model_pattern_match_Some spec_reference_Some by auto
    qed
    then have "model_pattern_match s = spec_reference s"
      by (metis option.exhaust surj_pair)
    with False show ?thesis by auto
  qed
qed

lemma resolve_manifest_meets_spec:
  "s = [] \<or> last s \<noteq> CHR 0x0A \<Longrightarrow> resolve_manifest w models_dir s = spec_resolve w models_dir s"
  by (auto simp: resolve_manifest_def spec_resolve_def model_pattern_match_spec)

text \<open>
  C5. A value of the form \<^verbatim>\<open>name:tag\<close> is resolved below the store root, any other value
  is a literal manifest path. The program departs from this on a value that is a
  reference followed by a newline: such a value is not of the form \<^verbatim>\<open>name:tag\<close>, and
  read literally it names no file here, so the resolution described ends in
  \<^verbatim>\<open>File not found\<close>; the program's pattern accepts it and resolves it to the manifest of
  the reference without the newline.
\<close>

theorem resolve_manifest_trailing_newline:
  "spec_reference (''llama3:8b'' @ [CHR 0x0A]) = None
   \<and> \<not> isfile example_world (''llama3:8b'' @ [CHR 0x0A])
   \<and> spec_resolve example_world ''/r'' (''llama3:8b'' @ [CHR 0x0A])
       = Inl (KnownError (''File not found: llama3:8b'' @ [CHR 0x0A]))
   \<and> model_pattern_match (''llama3:8b'' @ [CHR 0x0A]) = Some (''llama3'', ''8b'')
   \<and> resolve_manifest example_world ''/r'' (''llama3:8b'' @ [CHR 0x0A]) = Inr llama_path"
  by code_simp

text \<open>
  C6. A successful resolution returns one manifest path for each value, in the order of
  the values; the first value that cannot be resolved ends the call with its error and
  nothing else is returned; and the call succeeds when every value can be resolved.
\<close>

theorem resolve_manifests_order_and_fail_fast:
  "(resolve_manifests w vs md = Inr ms \<longrightarrow>
      length ms = length vs \<and> (\<forall>i<length vs. resolve_manifest w md (vs ! i) = Inr (ms ! i)))
   \<and> ((\<forall>u\<in>set pre. \<exists>m. resolve_manifest w md u = Inr m) \<and> resolve_manifest w md v = Inl e
        \<longrightarrow> resolve_manifests w (pre @ v # post) md = Inl e)
   \<and> ((\<forall>u\<in>set vs. \<exists>m. resolve_manifest w md u = Inr m)
        \<longrightarrow> (\<exists>ms'. resolve_manifests w vs md = Inr ms'))"
  using resolve_manifests_Inr resolve_manifests_first_failure resolve_manifests_all_ok
  by blast

theorem resolve_manifests_order_and_fail_fast_witness:
  "resolve_manifests example_world [''llama3:8b'', phi_path] ''/r'' = Inr [llama_path, phi_path]
   \<and> resolve_manifest example_world ''/r'' ''llama3:8b'' = Inr llama_path
   \<and> resolve_manifest example_world ''/r'' phi_path = Inr phi_path
   \<and> resolve_manifest example_world ''/r'' ''nope:1''
       = Inl (KnownError
           ''nope:1 manifest's not found: /r/manifests/registry.ollama.ai/library/nope/1'')
   \<and> resolve_manifests example_world [''llama3:8b'', ''nope:1'', ''missing''] ''/r''
       = Inl (KnownError
           ''nope:1 manifest's not found: /r/manifests/registry.ollama.ai/library/nope/1'')"
proof -
  have ok: "resolve_manifests example_world [''llama3:8b'', phi_path] ''/r''
              = Inr [llama_path, phi_path]"
    by code_simp
  have r1: "resolve_manifest example_world ''/r'' ''llama3:8b'' = Inr llama_path"
    by code_simp
  have r2: "resolve_manifest example_world ''/r'' phi_path = Inr phi_path"
    by code_simp
  have bad: "resolve_manifest example_world ''/r'' ''nope:1''
       = Inl (KnownError
           ''nope:1 manifest's not found: /r/manifests/registry.ollama.ai/library/nope/1'')"
    by code_simp
  from r1 have pre: "\<forall>u\<in>set [''llama3:8b'']. \<exists>m. resolve_manifest example_world ''/r'' u = Inr m"
    by simp
  from resolve_manifests_order_and_fail_fast
    [of example_world "[''llama3:8b'', phi_path]" "''/r''" "[llama_path, phi_path]"
        "[''llama3:8b'']" "''nope:1''" _ "[''missing'']"]
    pre bad
  have "resolve_manifests example_world ([''llama3:8b''] @ ''nope:1'' # [''missing'']) ''/r''
       = Inl (KnownError
           ''nope:1 manifest's not found: /r/manifests/registry.ollama.ai/library/nope/1'')"
    by blast
  with ok r1 r2 bad show ?thesis by simp
qed

subsection \<open>The blob path against the specification's wording\<close>

text \<open>
  On every digest that does not begin with a separator the program's blob path is the
  specification's: \<^verbatim>\<open>blobs/\<close> followed by the digest with every \<^verbatim>\<open>:\<close> replaced by
  \<^verbatim>\<open>-\<close>. The replacement keeps the length and leaves no colon.
\<close>

lemma replace_colon_startswith_sep: "startswith_sep (replace_colon d) = startswith_sep d"
  by (cases d) (auto simp: startswith_sep_def replace_colon_def sep_def)

lemma blob_path_meets_spec:
  "\<not> startswith_sep d \<Longrightarrow> blob_path d = spec_blob_path d"
  using replace_colon_startswith_sep [of d]
  by (simp add: blob_path_def spec_blob_path_def replace_colon_def join_def join_step_def
        endswith_sep_def sep_def)

lemma replace_colon_every_colon:
  "length (replace_colon d) = length d
   \<and> CHR '':'' \<notin> set (replace_colon d)
   \<and> (\<forall>i<length d. replace_colon d ! i = (if d ! i = CHR '':'' then CHR ''-'' else d ! i))"
  by (auto simp: replace_colon_def)

lemma blob_path_example: "blob_path ''sha256:deadbeef'' = ''blobs/sha256-deadbeef''"
  by code_simp

text \<open>
  Two digests that agree up to and including a colon, and have no further colon after
  it, have the same blob path only if they are equal.
\<close>

lemma blob_path_injective_after_colon:
  assumes "CHR '':'' \<notin> set s1" and "CHR '':'' \<notin> set s2"
    and "blob_path (p @ CHR '':'' # s1) = blob_path (p @ CHR '':'' # s2)"
  shows "s1 = s2"
proof -
  have id: "replace_colon s = s" if "CHR '':'' \<notin> set s" for s
    using that by (induction s) (auto simp: replace_colon_def)
  have ap: "replace_colon (p @ CHR '':'' # s) = replace_colon p @ CHR ''-'' # replace_colon s"
    for s by (simp add: replace_colon_def)
  have st: "startswith_sep (p @ CHR '':'' # s1) = startswith_sep (p @ CHR '':'' # s2)"
    by (cases p) (simp_all add: startswith_sep_def)
  have bp: "blob_path x = (if startswith_sep x then replace_colon x
                           else ''blobs/'' @ replace_colon x)" for x
    using replace_colon_startswith_sep [of x]
    by (simp add: blob_path_def join_def join_step_def endswith_sep_def sep_def)
  from assms(3) st have "replace_colon (p @ CHR '':'' # s1) = replace_colon (p @ CHR '':'' # s2)"
    by (auto simp: bp split: if_splits)
  then have "replace_colon s1 = replace_colon s2" by (simp add: ap)
  with assms(1,2) show ?thesis by (simp add: id)
qed

text \<open>Past the first colon, a further colon and a dash in its place give the same path.\<close>

lemma blob_path_second_colon:
  "blob_path ''sha256:a:b'' = blob_path ''sha256:a-b''"
  by code_simp

text \<open>
  C7. Every digest is to be mapped to \<^verbatim>\<open>blobs/\<close> followed by the digest with its colons
  replaced, a path below the store root. The program departs from this on a digest that
  begins with a separator: \<^verbatim>\<open>join\<close> drops the \<^verbatim>\<open>blobs\<close> segment before an absolute
  component, so the blob path of \<^verbatim>\<open>/sha256:deadbeef\<close> is \<^verbatim>\<open>/sha256-deadbeef\<close> and not
  \<^verbatim>\<open>blobs//sha256-deadbeef\<close>. A manifest carrying that digest is built without error, its
  file list holds the absolute path, and the copy then reads and writes that path itself,
  outside the store and outside the destination directory.
\<close>

theorem blob_path_absolute_digest:
  "blob_path ''/sha256:deadbeef'' = ''/sha256-deadbeef''
   \<and> spec_blob_path ''/sha256:deadbeef'' = ''blobs//sha256-deadbeef''
   \<and> get_ollama_manifest_data stray_world stray_path
       = Inr \<lparr>root = ''/r'',
              files = [''manifests/registry.ollama.ai/library/stray/latest'',
                       ''/sha256-deadbeef''],
              data_size = 7\<rparr>
   \<and> copy_command stray_world [stray_path] ''/backup''
       = ([Makedirs ''/backup/manifests/registry.ollama.ai/library/stray'',
           Copy2 stray_path ''/backup/manifests/registry.ollama.ai/library/stray/latest'',
           Makedirs ''/'',
           Copy2 ''/sha256-deadbeef'' ''/sha256-deadbeef''],
          None)"
  by code_simp

text \<open>
  C8. The root of a file set is computed from the manifest path (and the working
  directory that makes it absolute) and from nothing else: when two runs with any two
  store roots and any two lists of references arrive at the same manifest path, the file
  sets built for it have the same root, namely that path taken five levels up.
\<close>

theorem root_independent_of_models_dir:
  assumes "resolve_manifests w refs1 md1 = Inr ms1"
    and "resolve_manifests w refs2 md2 = Inr ms2"
    and "get_ollama_manifests_data w ms1 = Inr ds1"
    and "get_ollama_manifests_data w ms2 = Inr ds2"
    and "i < length ms1" and "j < length ms2" and "ms1 ! i = ms2 ! j"
  shows "root (ds1 ! i) = root (ds2 ! j)
       \<and> root (ds1 ! i) = manifest_root (abspath (cwd w) (ms1 ! i))"
proof -
  have r: "root d = manifest_root (abspath (cwd w) manifest)"
    if "get_ollama_manifest_data w manifest = Inr d" for manifest d
    using that by (rule get_ollama_manifest_data_Inr) simp
  from assms(3,5) have "get_ollama_manifest_data w (ms1 ! i) = Inr (ds1 ! i)"
    using manifests_data_Inr by blast
  moreover from assms(4,6) have "get_ollama_manifest_data w (ms2 ! j) = Inr (ds2 ! j)"
    using manifests_data_Inr by blast
  ultimately show ?thesis using assms(7) r by metis
qed

theorem root_independent_of_models_dir_witness:
  "resolve_manifests example_world [''llama3:8b''] ''/r'' = Inr [llama_path]
   \<and> resolve_manifests example_world [phi_path, llama_path] ''/elsewhere''
       = Inr [phi_path, llama_path]
   \<and> get_ollama_manifests_data example_world [llama_path] = Inr [llama_data]
   \<and> get_ollama_manifests_data example_world [phi_path, llama_path] = Inr [phi_data, llama_data]
   \<and> root ([llama_data] ! 0) = root ([phi_data, llama_data] ! 1)
   \<and> root ([llama_data] ! 0) = ''/r''"
proof -
  have a: "resolve_manifests example_world [''llama3:8b''] ''/r'' = Inr [llama_path]"
    by code_simp
  have b: "resolve_manifests example_world [phi_path, llama_path] ''/elsewhere''
             = Inr [phi_path, llama_path]"
    by code_simp
  have c: "get_ollama_manifests_data example_world [llama_path] = Inr [llama_data]"
    by code_simp
  have d: "get_ollama_manifests_data example_world [phi_path, llama_path]
             = Inr [phi_data, llama_data]"
    by code_simp
  have e: "manifest_root (abspath (cwd example_world) llama_path) = ''/r''"
    by code_simp
  from root_independent_of_models_dir [OF a b c d, of 0 1]
  have "root ([llama_data] ! 0) = root ([phi_data, llama_data] ! 1)
       \<and> root ([llama_data] ! 0) = manifest_root (abspath (cwd example_world) ([llama_path] ! 0))"
    by simp
  with a b c d e show ?thesis by simp
qed

text \<open>
  C9. The root check fails, with the message that all manifests must be in the same
  directory, exactly when the set of roots of the given file sets does not have one
  element, and it passes when there is at least one file set and all have the same root.
  The listing applies it after building the file sets and prints only if it passes;
  copy, tar and zip do not apply it: once the file sets are built they end without
  error, whatever the roots.
\<close>

theorem single_root_check_only_in_list:
  "check_single_ollama_root ds =
     (if card (root ` set ds) = 1 then Inr ()
      else Inl (KnownError ''All manifests must be in the same OLLAMA_MODELS directory.''))
   \<and> (ds \<noteq> [] \<and> (\<forall>d\<in>set ds. root d = r) \<longrightarrow> check_single_ollama_root ds = Inr ())
   \<and> (get_ollama_manifests_data w ms = Inr ds \<longrightarrow>
        list_command w ms =
          (if card (root ` set ds) = 1
           then (concat (map (\<lambda>d. map Print (files d)) ds), None)
           else ([], Some (KnownError
                   ''All manifests must be in the same OLLAMA_MODELS directory.'')))
        \<and> snd (copy_command w ms dst) = None
        \<and> snd (tar_command w ms archive) = None
        \<and> snd (zip_command w ms archive) = None)"
proof (intro conjI impI)
  show c: "check_single_ollama_root ds =
     (if card (root ` set ds) = 1 then Inr ()
      else Inl (KnownError ''All manifests must be in the same OLLAMA_MODELS directory.''))"
    by (simp add: check_single_ollama_root_def)
  show "check_single_ollama_root ds = Inr ()" if a: "ds \<noteq> [] \<and> (\<forall>d\<in>set ds. root d = r)"
  proof -
    from a have "root ` set ds = {r}" by (cases ds) auto
    then show ?thesis by (simp add: c)
  qed
  show "list_command w ms =
          (if card (root ` set ds) = 1
           then (concat (map (\<lambda>d. map Print (files d)) ds), None)
           else ([], Some (KnownError
                   ''All manifests must be in the same OLLAMA_MODELS directory.'')))"
    if "get_ollama_manifests_data w ms = Inr ds"
    using that by (simp add: list_command_def c)
  show "snd (copy_command w ms dst) = None" if "get_ollama_manifests_data w ms = Inr ds"
    using that by (simp add: copy_command_def)
  show "snd (tar_command w ms archive) = None" if "get_ollama_manifests_data w ms = Inr ds"
    using that by (simp add: tar_command_def)
  show "snd (zip_command w ms archive) = None" if "get_ollama_manifests_data w ms = Inr ds"
    using that by (simp add: zip_command_def)
qed

theorem single_root_check_only_in_list_witness:
  "get_ollama_manifests_data example_world [llama_path, phi_path] = Inr [llama_data, phi_data]
   \<and> card (root ` set [llama_data, phi_data]) = 2
   \<and> check_single_ollama_root [llama_data, phi_data]
       = Inl (KnownError ''All manifests must be in the same OLLAMA_MODELS directory.'')
   \<and> check_single_ollama_root [llama_data, llama_data] = Inr ()
   \<and> list_command example_world [llama_path, phi_path]
       = ([], Some (KnownError ''All manifests must be in the same OLLAMA_MODELS directory.''))
   \<and> snd (copy_command example_world [llama_path, phi_path] ''/backup'') = None
   \<and> snd (tar_command example_world [llama_path, phi_path] ''-'') = None
   \<and> snd (zip_command example_world [llama_path, phi_path] ''-'') = None"
proof -
  have g: "get_ollama_manifests_data example_world [llama_path, phi_path]
             = Inr [llama_data, phi_data]"
    by code_simp
  have k: "card (root ` set [llama_data, phi_data]) = 2"
    by (simp add: llama_data_def phi_data_def)
  have same: "[llama_data, llama_data] \<noteq> [] \<and> (\<forall>d\<in>set [llama_data, llama_data]. root d = ''/r'')"
    by (simp add: llama_data_def)
  note t = single_root_check_only_in_list
    [of "[llama_data, phi_data]" "''/r''" example_world "[llama_path, phi_path]"
        "''/backup''" "''-''"]
  note u = single_root_check_only_in_list [of "[llama_data, llama_data]" "''/r''"]
  from u same have ok: "check_single_ollama_root [llama_data, llama_data] = Inr ()"
    by blast
  from t g k have
    "check_single_ollama_root [llama_data, phi_data]
       = Inl (KnownError ''All manifests must be in the same OLLAMA_MODELS directory.'')"
    "list_command example_world [llama_path, phi_path]
       = ([], Some (KnownError ''All manifests must be in the same OLLAMA_MODELS directory.''))"
    "snd (copy_command example_world [llama_path, phi_path] ''/backup'') = None"
    "snd (tar_command example_world [llama_path, phi_path] ''-'') = None"
    "snd (zip_command example_world [llama_path, phi_path] ''-'') = None"
    by simp_all
  with g k ok show ?thesis by simp
qed

text \<open>
  C10. Every command builds and verifies the file sets of all its manifests before its
  first output: when the build of any one manifest fails, each of list, copy, tar and zip
  ends with the error of the first failing manifest and has printed no line, created no
  directory, copied no file and opened no archive. The same holds for the program as a
  whole, which also resolves all references before anything else: a failing resolution or
  a failing build ends it with no output.
\<close>

theorem commands_verify_before_output:
  "(manifest \<in> set ms \<and> get_ollama_manifest_data w manifest = Inl e' \<longrightarrow>
      (\<exists>e. get_ollama_manifests_data w ms = Inl e
         \<and> list_command w ms = ([], Some e)
         \<and> copy_command w ms dst = ([], Some e)
         \<and> tar_command w ms archive = ([], Some e)
         \<and> zip_command w ms archive = ([], Some e)))
   \<and> ((\<forall>u\<in>set pre. \<exists>d. get_ollama_manifest_data w u = Inr d)
        \<and> get_ollama_manifest_data w manifest = Inl e'
        \<longrightarrow> get_ollama_manifests_data w (pre @ manifest # post) = Inl e')
   \<and> (resolve_manifests w model md = Inl e' \<longrightarrow> main w cmd md model = ([], Some e'))
   \<and> (resolve_manifests w model md = Inr ms \<and> manifest \<in> set ms
        \<and> get_ollama_manifest_data w manifest = Inl e'
        \<longrightarrow> (\<exists>e. main w cmd md model = ([], Some e)))"
proof (intro conjI impI)
  show cmds: "\<exists>e. get_ollama_manifests_data w ms = Inl e
         \<and> list_command w ms = ([], Some e)
         \<and> copy_command w ms dst = ([], Some e)
         \<and> tar_command w ms archive = ([], Some e)
         \<and> zip_command w ms archive = ([], Some e)"
    if a: "manifest \<in> set ms \<and> get_ollama_manifest_data w manifest = Inl e'"
    for dst archive
  proof -
    from a obtain e where "get_ollama_manifests_data w ms = Inl e"
      using manifests_data_Inl by blast
    then show ?thesis
      by (simp add: list_command_def copy_command_def tar_command_def zip_command_def)
  qed
  show "get_ollama_manifests_data w (pre @ manifest # post) = Inl e'"
    if "(\<forall>u\<in>set pre. \<exists>d. get_ollama_manifest_data w u = Inr d)
        \<and> get_ollama_manifest_data w manifest = Inl e'"
    using that manifests_data_first_failure by blast
  show "main w cmd md model = ([], Some e')" if "resolve_manifests w model md = Inl e'"
    using that by (simp add: main_def)
  show "\<exists>e. main w cmd md model = ([], Some e)"
    if a: "resolve_manifests w model md = Inr ms \<and> manifest \<in> set ms
        \<and> get_ollama_manifest_data w manifest = Inl e'"
  proof (cases cmd)
    case ListCmd
    with a cmds [of undefined undefined] show ?thesis by (auto simp: main_def)
  next
    case (CopyCmd to)
    with a cmds [of to undefined] show ?thesis by (auto simp: main_def)
  next
    case (TarCmd ar)
    with a cmds [of undefined ar] show ?thesis by (auto simp: main_def)
  next
    case (ZipCmd ar)
    with a cmds [of undefined ar] show ?thesis by (auto simp: main_def)
  qed
qed

theorem commands_verify_before_output_witness:
  "get_ollama_manifest_data damaged_world llama_path
     = Inl (KnownError ''File not found: /r/blobs/sha256-bb'')
   \<and> get_ollama_manifest_data damaged_world phi_path = Inr phi_data
   \<and> resolve_manifests damaged_world [phi_path, ''llama3:8b''] ''/r'' = Inr [phi_path, llama_path]
   \<and> list_command damaged_world [phi_path, llama_path]
       = ([], Some (KnownError ''File not found: /r/blobs/sha256-bb''))
   \<and> copy_command damaged_world [phi_path, llama_path] ''/backup''
       = ([], Some (KnownError ''File not found: /r/blobs/sha256-bb''))
   \<and> tar_command damaged_world [phi_path, llama_path] ''-''
       = ([], Some (KnownError ''File not found: /r/blobs/sha256-bb''))
   \<and> zip_command damaged_world [phi_path, llama_path] ''-''
       = ([], Some (KnownError ''File not found: /r/blobs/sha256-bb''))
   \<and> fst (main damaged_world (CopyCmd ''/backup'') ''/r'' [phi_path, ''llama3:8b'']) = []
   \<and> main damaged_world (TarCmd ''-'') ''/r'' [''nope:1'']
       = ([], Some (KnownError
            ''nope:1 manifest's not found: /r/manifests/registry.ollama.ai/library/nope/1''))"
proof -
  have bad: "get_ollama_manifest_data damaged_world llama_path
     = Inl (KnownError ''File not found: /r/blobs/sha256-bb'')"
    by code_simp
  have good: "get_ollama_manifest_data damaged_world phi_path = Inr phi_data"
    by code_simp
  have res: "resolve_manifests damaged_world [phi_path, ''llama3:8b''] ''/r''
               = Inr [phi_path, llama_path]"
    by code_simp
  have nres: "resolve_manifests damaged_world [''nope:1''] ''/r''
               = Inl (KnownError
            ''nope:1 manifest's not found: /r/manifests/registry.ollama.ai/library/nope/1'')"
    by code_simp
  have mem: "llama_path \<in> set [phi_path, llama_path]" by simp
  from good have pre: "\<forall>u\<in>set [phi_path]. \<exists>d. get_ollama_manifest_data damaged_world u = Inr d"
    by simp
  note t = commands_verify_before_output
    [of llama_path "[phi_path, llama_path]" damaged_world
        "KnownError ''File not found: /r/blobs/sha256-bb''" "''/backup''" "''-''"
        "[phi_path]" "[]" "[phi_path, ''llama3:8b'']" "''/r''" "CopyCmd ''/backup''"]
  from t pre bad have first:
    "get_ollama_manifests_data damaged_world ([phi_path] @ llama_path # [])
       = Inl (KnownError ''File not found: /r/blobs/sha256-bb'')"
    by blast
  from t mem bad obtain e where
    e: "get_ollama_manifests_data damaged_world [phi_path, llama_path] = Inl e"
    and c: "list_command damaged_world [phi_path, llama_path] = ([], Some e)"
      "copy_command damaged_world [phi_path, llama_path] ''/backup'' = ([], Some e)"
      "tar_command damaged_world [phi_path, llama_path] ''-'' = ([], Some e)"
      "zip_command damaged_world [phi_path, llama_path] ''-'' = ([], Some e)"
    by blast
  from e first have ee: "e = KnownError ''File not found: /r/blobs/sha256-bb''" by simp
  from t res mem bad obtain e2 where
    "main damaged_world (CopyCmd ''/backup'') ''/r'' [phi_path, ''llama3:8b''] = ([], Some e2)"
    by blast
  then have m: "fst (main damaged_world (CopyCmd ''/backup'') ''/r'' [phi_path, ''llama3:8b'']) = []"
    by simp
  from commands_verify_before_output
    [of _ _ damaged_world
        "KnownError ''nope:1 manifest's not found: /r/manifests/registry.ollama.ai/library/nope/1''"
        _ _ _ _ "[''nope:1'']" "''/r''" "TarCmd ''-''"] nres
  have n: "main damaged_world (TarCmd ''-'') ''/r'' [''nope:1'']
       = ([], Some (KnownError
            ''nope:1 manifest's not found: /r/manifests/registry.ollama.ai/library/nope/1''))"
    by blast
  from bad good res c ee m n show ?thesis by simp
qed

end
